theory Spec2Isabelle
  imports Complex_Main "HOL-Library.Log_Nat"
begin

section \<open>Strings and the library functions the helpers call\<close>

text \<open>
  A Go string is a sequence of bytes; it is modelled as a \<open>string\<close>, a list of 8-bit
  characters. Go's \<open>int\<close> is modelled as \<open>int\<close>; the helpers of \<open>pagination.go\<close> only
  compare and copy the page numbers, and the one product (\<open>GetOffset\<close>) wraps explicitly.
\<close>

definition isDigit :: "char \<Rightarrow> bool" where
  "isDigit c = (48 \<le> (of_char c :: nat) \<and> (of_char c :: nat) \<le> 57)"

definition isLower :: "char \<Rightarrow> bool" where
  "isLower c = (97 \<le> (of_char c :: nat) \<and> (of_char c :: nat) \<le> 122)"

definition isUpper :: "char \<Rightarrow> bool" where
  "isUpper c = (65 \<le> (of_char c :: nat) \<and> (of_char c :: nat) \<le> 90)"

definition wrap_int64 :: "int \<Rightarrow> int" where
  "wrap_int64 x = (x + 2 ^ 63) mod 2 ^ 64 - 2 ^ 63"

text \<open>
  \<open>strconv.Atoi\<close> on a 64-bit platform: an optional sign, then one or more decimal
  digits and nothing else; a value outside the range of \<open>int\<close> is an error. \<open>None\<close> is
  a non-nil \<open>err\<close>.
\<close>

fun parse_digits :: "string \<Rightarrow> nat \<Rightarrow> nat option" where
  "parse_digits [] n = Some n"
| "parse_digits (c # cs) n =
     (if isDigit c then parse_digits cs (n * 10 + ((of_char c :: nat) - 48)) else None)"

definition Atoi :: "string \<Rightarrow> int option" where
  "Atoi s =
     (if s = [] then None
      else
        let neg = (hd s = CHR ''-'');
            body = (if hd s = CHR ''-'' \<or> hd s = CHR ''+'' then tl s else s)
        in if body = [] then None
           else
             (case parse_digits body 0 of
                None \<Rightarrow> None
              | Some n \<Rightarrow>
                  let v = (if neg then - int n else int n)
                  in if - (2 ^ 63) \<le> v \<and> v < 2 ^ 63 then Some v else None))"

section \<open>float64\<close>

text \<open>
  \<open>CalculatePagination\<close> computes in \<open>float64\<close>. A finite value is the rational number it
  denotes; the two zeros are one value, which is enough here: a zero is only divided, or
  rounded up and converted to an integer. \<open>round_float64\<close> rounds a rational to the
  nearest number with a significand of 53 bits, ties to the even significand, with no
  bound on the exponent: the operands are conversions of 64-bit integers and their
  quotients, whose magnitudes lie between \<open>2 powi - 64\<close> and \<open>2 powi 64\<close>, far inside the
  normal range of \<open>float64\<close>.
\<close>

datatype float64 = Finite rat | PosInf | NegInf | NaN

text \<open>The nearest integer, a tie going to the even one.\<close>

definition round_half_even :: "rat \<Rightarrow> int" where
  "round_half_even x =
     (let f = \<lfloor>x\<rfloor>; d = x - of_int f
      in if d < 1 / 2 then f
         else if d > 1 / 2 then f + 1
         else if even f then f else f + 1)"

text \<open>\<open>binade x\<close> is the exponent \<open>e\<close> with \<open>2 powi e \<le> \<bar>x\<bar> < 2 powi (e + 1)\<close>.\<close>

definition binade :: "rat \<Rightarrow> int" where
  "binade x =
     (let (p, q) = quotient_of \<bar>x\<bar>; d = bitlen p - bitlen q
      in if 2 powi d \<le> \<bar>x\<bar> then d else d - 1)"

definition round_float64 :: "rat \<Rightarrow> rat" where
  "round_float64 x =
     (if x = 0 then 0
      else let ulp = 2 powi (binade x - 52)
           in of_int (round_half_even (x / ulp)) * ulp)"

definition float64_of_int :: "int \<Rightarrow> float64" where
  "float64_of_int n = Finite (round_float64 (of_int n))"

definition float64_div :: "float64 \<Rightarrow> float64 \<Rightarrow> float64" where
  "float64_div a b =
     (case (a, b) of
        (Finite x, Finite y) \<Rightarrow>
          if y = 0 then (if x = 0 then NaN else if x > 0 then PosInf else NegInf)
          else Finite (round_float64 (x / y))
      | (Finite x, PosInf) \<Rightarrow> Finite 0
      | (Finite x, NegInf) \<Rightarrow> Finite 0
      | (PosInf, Finite y) \<Rightarrow> (if y \<ge> 0 then PosInf else NegInf)
      | (NegInf, Finite y) \<Rightarrow> (if y \<ge> 0 then NegInf else PosInf)
      | _ \<Rightarrow> NaN)"

definition math_Ceil :: "float64 \<Rightarrow> float64" where
  "math_Ceil a = (case a of Finite x \<Rightarrow> Finite (of_int \<lceil>x\<rceil>) | _ \<Rightarrow> a)"

text \<open>
  The conversion to \<open>int64\<close> truncates towards zero. For a value that \<open>int64\<close> cannot
  represent, the Go specification leaves the result to the implementation: \<open>impl\<close>.
\<close>

definition int64_of_float64 :: "(float64 \<Rightarrow> int) \<Rightarrow> float64 \<Rightarrow> int" where
  "int64_of_float64 impl a =
     (case a of
        Finite x \<Rightarrow>
          let t = (if x \<ge> 0 then \<lfloor>x\<rfloor> else \<lceil>x\<rceil>)
          in if - (2 ^ 63) \<le> t \<and> t < 2 ^ 63 then t else impl a
      | _ \<Rightarrow> impl a)"

section \<open>PaginationRequest\<close>

record PaginationRequest =
  Page :: int
  PerPage :: int
  Search :: string
  Sort :: string
  Order :: string

record PaginationResponse =
  resp_Page :: int
  resp_PerPage :: int
  MaxPage :: int
  Total :: int

text \<open>
  \<open>GetOffset\<close> and \<open>GetLimit\<close> have pointer receivers: they return a value and the
  updated request.
\<close>

definition GetOffset :: "PaginationRequest \<Rightarrow> int \<times> PaginationRequest" where
  "GetOffset p =
     (let p = (if Page p \<le> 0 then p\<lparr>Page := 1\<rparr> else p)
      in (wrap_int64 ((Page p - 1) * PerPage p), p))"

definition GetLimit :: "PaginationRequest \<Rightarrow> int \<times> PaginationRequest" where
  "GetLimit p =
     (let p = (if PerPage p \<le> 0 then p\<lparr>PerPage := 10\<rparr> else p)
      in (PerPage p, p))"

definition Validate :: "PaginationRequest \<Rightarrow> PaginationRequest" where
  "Validate p =
     (let p = (if Page p \<le> 0 then p\<lparr>Page := 1\<rparr> else p);
          p = (if PerPage p \<le> 0 then p\<lparr>PerPage := 10\<rparr> else p);
          p = (if Order p = [] then p\<lparr>Order := ''asc''\<rparr> else p);
          p = (if Order p \<noteq> ''asc'' \<and> Order p \<noteq> ''desc'' then p\<lparr>Order := ''asc''\<rparr> else p)
      in p)"

text \<open>
  \<open>ctx.Query key\<close> is the first value of the query parameter, or the empty string when the
  request has none: the context is the function from keys to these strings.
\<close>

type_synonym gin_Context = "string \<Rightarrow> string"

definition BindPagination :: "gin_Context \<Rightarrow> PaginationRequest" where
  "BindPagination ctx =
     (let pagination = \<lparr>Page = 1, PerPage = 10, Search = [], Sort = [], Order = ''asc''\<rparr>;
          pageStr = ctx ''page'';
          pagination =
            (if pageStr \<noteq> [] then
               (case Atoi pageStr of
                  Some page \<Rightarrow> if page > 0 then pagination\<lparr>Page := page\<rparr> else pagination
                | None \<Rightarrow> pagination)
             else pagination);
          perPageStr = ctx ''per_page'';
          pagination =
            (if perPageStr \<noteq> [] then
               (case Atoi perPageStr of
                  Some perPage \<Rightarrow>
                    if perPage > 0 \<and> perPage \<le> 100 then pagination\<lparr>PerPage := perPage\<rparr>
                    else pagination
                | None \<Rightarrow> pagination)
             else pagination);
          pagination = pagination\<lparr>Search := ctx ''search''\<rparr>;
          pagination = pagination\<lparr>Sort := ctx ''sort''\<rparr>;
          order = ctx ''order'';
          pagination =
            (if order = ''desc'' \<or> order = ''asc'' then pagination\<lparr>Order := order\<rparr>
             else pagination)
      in Validate pagination)"

text \<open>
  \<open>CalculatePagination\<close>; \<open>impl\<close> is the conversion of the platform for a quotient that
  \<open>int64\<close> cannot represent (a zero perPage gives an infinity or NaN).
\<close>

definition CalculatePagination ::
  "(float64 \<Rightarrow> int) \<Rightarrow> PaginationRequest \<Rightarrow> int \<Rightarrow> PaginationResponse" where
  "CalculatePagination impl pagination totalCount =
     (let maxPage =
            int64_of_float64 impl
              (math_Ceil (float64_div (float64_of_int totalCount)
                 (float64_of_int (PerPage pagination))));
          maxPage = (if maxPage = 0 then 1 else maxPage)
      in \<lparr>resp_Page = Page pagination, resp_PerPage = PerPage pagination,
          MaxPage = maxPage, Total = totalCount\<rparr>)"

section \<open>Query values and the gorm query\<close>

text \<open>
  A value of type \<open>interface{}\<close> handed to a query: \<open>VNil\<close> is the nil interface.
\<close>

datatype gvalue = VNil | VString string | VInt int | VBool bool | VList "gvalue list"

text \<open>
  The gorm query object is the collaborator of the helpers, which only call its fluent
  methods. A query is the list of the calls made on it, in the order they were made;
  \<open>db.Table name\<close> starts a new one.
\<close>

datatype qop =
    QTable string
  | QWhere string "gvalue list"
  | QOr string "gvalue list"
  | QRaw string
  | QOrder string
  | QOffset int
  | QLimit int
  | QPreload string

type_synonym query = "qop list"

datatype panic = Panic string

text \<open>
  \<open>strings.ToUpper\<close> and \<open>strings.EqualFold\<close> work on the bytes of a string that is
  ASCII throughout, and go through the Unicode tables otherwise. The tables are not part of
  the repository: what they give on a string with a byte outside ASCII is a parameter.
\<close>

record unicode_tables =
  upper_nonASCII :: "string \<Rightarrow> string"
  fold_nonASCII :: "string \<Rightarrow> string \<Rightarrow> bool"

definition isASCII :: "string \<Rightarrow> bool" where
  "isASCII s = list_all (\<lambda>c. (of_char c :: nat) < 128) s"

definition toUpperASCII :: "char \<Rightarrow> char" where
  "toUpperASCII c = (if isLower c then char_of ((of_char c :: nat) - 32) else c)"

definition strings_ToUpper :: "unicode_tables \<Rightarrow> string \<Rightarrow> string" where
  "strings_ToUpper U s = (if isASCII s then map toUpperASCII s else upper_nonASCII U s)"

definition strings_EqualFold :: "unicode_tables \<Rightarrow> string \<Rightarrow> string \<Rightarrow> bool" where
  "strings_EqualFold U s t =
     (if isASCII s \<and> isASCII t then map toUpperASCII s = map toUpperASCII t
      else fold_nonASCII U s t)"

text \<open>\<open>strings.Split\<close> with a separator of one byte, and \<open>strings.Join\<close>.\<close>

fun strings_Split :: "string \<Rightarrow> char \<Rightarrow> string list" where
  "strings_Split [] sep = [[]]"
| "strings_Split (c # cs) sep =
     (if c = sep then [] # strings_Split cs sep
      else (case strings_Split cs sep of
              p # ps \<Rightarrow> (c # p) # ps
            | [] \<Rightarrow> [[c]]))"

fun strings_Join :: "string list \<Rightarrow> string \<Rightarrow> string" where
  "strings_Join [] sep = []"
| "strings_Join [x] sep = x"
| "strings_Join (x # y # ys) sep = x @ sep @ strings_Join (y # ys) sep"

section \<open>DynamicFilter\<close>

record FilterCondition =
  Field_name :: string
  Operator :: string
  Value :: gvalue
  Logic :: string

text \<open>
  What reflection reads of the model: the kind of its type and, for a struct, the name of
  each field with the values of its \<open>gorm\<close> and \<open>json\<close> tags.
\<close>

record StructField =
  sf_Name :: string
  sf_gorm :: string
  sf_json :: string

datatype go_type = TStruct "StructField list" | TPtr go_type | TOther

text \<open>\<open>Model\<close> is \<open>None\<close> for the nil interface.\<close>

record DynamicFilter =
  Pagination :: PaginationRequest
  Includes :: "string list"
  Filters :: "FilterCondition list"
  TableName :: string
  Model :: "go_type option"
  SearchFields :: "string list"
  DefaultSort :: string

fun columnLoop :: "string list \<Rightarrow> string" where
  "columnLoop [] = []"
| "columnLoop (part # parts) =
     (if take 7 part = ''column:'' then drop 7 part else columnLoop parts)"

definition extractColumnName :: "string \<Rightarrow> string" where
  "extractColumnName gormTag = columnLoop (strings_Split gormTag (CHR '';''))"

definition extractJSONName :: "string \<Rightarrow> string" where
  "extractJSONName jsonTag =
     (let parts = strings_Split jsonTag (CHR '','')
      in if length parts > 0 \<and> hd parts \<noteq> ''-'' then hd parts else [])"

fun fieldLoop :: "unicode_tables \<Rightarrow> string \<Rightarrow> StructField list \<Rightarrow> bool" where
  "fieldLoop U fieldName [] = False"
| "fieldLoop U fieldName (field # rest) =
     (let dbTag = sf_gorm field; jsonTag = sf_json field
      in if sf_Name field = fieldName \<or>
            strings_EqualFold U (sf_Name field) fieldName \<or>
            extractColumnName dbTag = fieldName \<or>
            extractJSONName jsonTag = fieldName
         then True
         else fieldLoop U fieldName rest)"

text \<open>\<open>NumField\<close> panics on a type that is not a struct.\<close>

definition isValidField :: "unicode_tables \<Rightarrow> DynamicFilter \<Rightarrow> string \<Rightarrow> panic + bool" where
  "isValidField U d fieldName =
     (case Model d of
        None \<Rightarrow> Inr False
      | Some modelType \<Rightarrow>
          let modelType = (case modelType of TPtr t \<Rightarrow> t | _ \<Rightarrow> modelType)
          in (case modelType of
                TStruct sfields \<Rightarrow> Inr (fieldLoop U fieldName sfields)
              | _ \<Rightarrow> Inl (Panic ''reflect: NumField of non-struct type'')))"

definition buildCondition :: "unicode_tables \<Rightarrow> FilterCondition \<Rightarrow> string" where
  "buildCondition U flt =
     (let op = strings_ToUpper U (Operator flt)
      in if op = ''='' \<or> op = ''EQ'' \<or> op = ''EQUALS'' then Field_name flt @ '' = ?''
         else if op = ''!='' \<or> op = ''NE'' \<or> op = ''NOT_EQUALS'' then Field_name flt @ '' != ?''
         else if op = ''>'' \<or> op = ''GT'' \<or> op = ''GREATER_THAN'' then Field_name flt @ '' > ?''
         else if op = ''>='' \<or> op = ''GTE'' \<or> op = ''GREATER_THAN_EQUALS''
           then Field_name flt @ '' >= ?''
         else if op = ''<'' \<or> op = ''LT'' \<or> op = ''LESS_THAN'' then Field_name flt @ '' < ?''
         else if op = ''<='' \<or> op = ''LTE'' \<or> op = ''LESS_THAN_EQUALS''
           then Field_name flt @ '' <= ?''
         else if op = ''LIKE'' \<or> op = ''CONTAINS'' then Field_name flt @ '' LIKE ?''
         else if op = ''ILIKE'' \<or> op = ''ICONTAINS'' then Field_name flt @ '' ILIKE ?''
         else if op = ''IN'' then Field_name flt @ '' IN ?''
         else if op = ''NOT_IN'' then Field_name flt @ '' NOT IN ?''
         else if op = ''IS_NULL'' then Field_name flt @ '' IS NULL''
         else if op = ''IS_NOT_NULL'' then Field_name flt @ '' IS NOT NULL''
         else Field_name flt @ '' = ?'')"

text \<open>
  The loop of \<open>ApplyFilters\<close> from index \<open>i\<close> on; \<open>continue\<close> is the recursive call on the
  rest with the query unchanged.
\<close>

fun ApplyFilters_loop ::
  "unicode_tables \<Rightarrow> DynamicFilter \<Rightarrow> nat \<Rightarrow> FilterCondition list \<Rightarrow> query \<Rightarrow> panic + query"
where
  "ApplyFilters_loop U d i [] query = Inr query"
| "ApplyFilters_loop U d i (flt # rest) query =
     (if Field_name flt = [] \<or> Value flt = VNil
      then ApplyFilters_loop U d (i + 1) rest query
      else
        (case isValidField U d (Field_name flt) of
           Inl p \<Rightarrow> Inl p
         | Inr valid \<Rightarrow>
             if \<not> valid then ApplyFilters_loop U d (i + 1) rest query
             else
               let condition = buildCondition U flt
               in if condition = [] then ApplyFilters_loop U d (i + 1) rest query
                  else if i = 0
                    then ApplyFilters_loop U d (i + 1) rest
                           (query @ [QWhere condition [Value flt]])
                  else
                    let logic = strings_ToUpper U (Logic flt)
                    in if logic = ''OR''
                       then ApplyFilters_loop U d (i + 1) rest
                              (query @ [QOr condition [Value flt]])
                       else ApplyFilters_loop U d (i + 1) rest
                              (query @ [QWhere condition [Value flt]])))"

definition DynamicFilter_ApplyFilters ::
  "unicode_tables \<Rightarrow> DynamicFilter \<Rightarrow> query \<Rightarrow> panic + query" where
  "DynamicFilter_ApplyFilters U d query = ApplyFilters_loop U d 0 (Filters d) query"

definition DynamicFilter_GetDefaultSort :: "DynamicFilter \<Rightarrow> string" where
  "DynamicFilter_GetDefaultSort d = (if DefaultSort d = [] then ''id asc'' else DefaultSort d)"

section \<open>Search, sort and include helpers\<close>

type_synonym DatabaseDialect = string

definition MySQL :: DatabaseDialect where "MySQL = ''mysql''"
definition PostgreSQL :: DatabaseDialect where "PostgreSQL = ''postgresql''"
definition SQLite :: DatabaseDialect where "SQLite = ''sqlite''"
definition SQLServer :: DatabaseDialect where "SQLServer = ''sqlserver''"

definition getSearchOperator :: "DatabaseDialect \<Rightarrow> string" where
  "getSearchOperator dialect =
     (if dialect = PostgreSQL then ''ILIKE''
      else if dialect = MySQL \<or> dialect = SQLite \<or> dialect = SQLServer then ''LIKE''
      else ''LIKE'')"

text \<open>
  The loop of \<open>applyAutoSearch\<close> writes slot \<open>i\<close> of the two slices made with the length
  of \<open>searchFields\<close>.
\<close>

fun searchLoop ::
  "nat \<Rightarrow> string list \<Rightarrow> string \<Rightarrow> gvalue \<Rightarrow> string list \<times> gvalue list \<Rightarrow>
   string list \<times> gvalue list"
where
  "searchLoop i [] operator searchPattern (conditions, args) = (conditions, args)"
| "searchLoop i (field # rest) operator searchPattern (conditions, args) =
     searchLoop (i + 1) rest operator searchPattern
       (conditions[i := field @ '' '' @ operator @ '' ?''], args[i := searchPattern])"

definition applyAutoSearch ::
  "query \<Rightarrow> string \<Rightarrow> string list \<Rightarrow> DatabaseDialect \<Rightarrow> query" where
  "applyAutoSearch query searchTerm searchFields dialect =
     (if length searchFields = 0 \<or> searchTerm = [] then query
      else
        let searchPattern = ''%'' @ searchTerm @ ''%'';
            operator = getSearchOperator dialect
        in if length searchFields = 1
           then query @ [QWhere (hd searchFields @ '' '' @ operator @ '' ?'') [VString searchPattern]]
           else
             let (conditions, args) =
                   searchLoop 0 searchFields operator (VString searchPattern)
                     (replicate (length searchFields) [], replicate (length searchFields) VNil);
                 whereClause = ''('' @ strings_Join conditions '' OR '' @ '')''
             in query @ [QWhere whereClause args])"

text \<open>
  \<open>range\<close> over a string yields its code points. A byte below 128 is its own code point
  and is never part of a longer sequence; a byte from 128 on belongs to a code point from
  128 on, or is read as U+FFFD. So the loop returns false exactly when some byte of the
  string is outside the five classes, and the model tests the bytes.
\<close>

definition validIdentChar :: "char \<Rightarrow> bool" where
  "validIdentChar char =
     (isLower char \<or> isUpper char \<or> isDigit char \<or> char = CHR ''_'' \<or> char = CHR ''.'')"

fun identLoop :: "string \<Rightarrow> bool" where
  "identLoop [] = True"
| "identLoop (char # rest) = (if \<not> validIdentChar char then False else identLoop rest)"

definition isValidSortField :: "string \<Rightarrow> bool" where
  "isValidSortField field = (if \<not> identLoop field then False else length field > 0)"

definition isValidInclude :: "string \<Rightarrow> bool" where
  "isValidInclude include = (if \<not> identLoop include then False else length include > 0)"

section \<open>The paginated query executor\<close>

text \<open>
  The \<open>QueryBuilder\<close> interface. \<open>GetAllowedIncludes\<close> is \<open>None\<close> for a builder that is
  not an \<open>AllowedIncludesProvider\<close>; a key that the map of allowed includes lacks reads
  as false.
\<close>

record QueryBuilder =
  ApplyFilters :: "query \<Rightarrow> panic + query"
  GetTableName :: string
  GetDefaultSort :: string
  GetSearchFields :: "string list"
  GetAllowedIncludes :: "(string \<Rightarrow> bool) option"

record PaginatedQueryOptions =
  Dialect :: DatabaseDialect
  EnableSoftDelete :: bool
  CustomCountQuery :: string

definition validateIncludes :: "QueryBuilder \<Rightarrow> string list \<Rightarrow> string list" where
  "validateIncludes builder includes =
     (case GetAllowedIncludes builder of
        Some allowedIncludes \<Rightarrow>
          filter (\<lambda>include. isValidInclude include \<and> allowedIncludes include) includes
      | None \<Rightarrow> filter (\<lambda>include. isValidInclude include) includes)"

text \<open>
  An error is what the database reports, or \<open>fmt.Errorf\<close> with a message and the error
  it wraps (\<open>%w\<close>).
\<close>

datatype error = BackendError string | Errorf string error

text \<open>
  The database answers a count and a fetch for every query, with a value or an error. The
  executor returns its three results together with the statements it has executed, in
  order.
\<close>

record 'row DB =
  db_Count :: "query \<Rightarrow> error + int"
  db_Find :: "query \<Rightarrow> error + 'row list"

datatype event = CountIssued query | FindIssued query

definition db_Table :: "string \<Rightarrow> query" where
  "db_Table name = [QTable name]"

text \<open>Lines 304 to 333: the data query from the filtered table query.\<close>

definition buildDataQuery ::
  "QueryBuilder \<Rightarrow> PaginationRequest \<Rightarrow> string list \<Rightarrow> PaginatedQueryOptions \<Rightarrow> query \<Rightarrow> query"
where
  "buildDataQuery builder pagination includes options dataQuery =
     (let dataQuery =
            (if Search pagination \<noteq> []
             then applyAutoSearch dataQuery (Search pagination) (GetSearchFields builder)
                    (Dialect options)
             else dataQuery);
          dataQuery =
            (if EnableSoftDelete options then dataQuery @ [QWhere ''deleted_at IS NULL'' []]
             else dataQuery);
          dataQuery =
            (if Sort pagination \<noteq> [] then
               (if isValidSortField (Sort pagination)
                then let orderClause = Sort pagination @ '' '' @ Order pagination
                     in dataQuery @ [QOrder orderClause]
                else dataQuery @ [QOrder (GetDefaultSort builder)])
             else dataQuery @ [QOrder (GetDefaultSort builder)]);
          (offset, pagination) = GetOffset pagination;
          (limit, pagination) = GetLimit pagination;
          dataQuery = dataQuery @ [QOffset offset] @ [QLimit limit];
          validatedIncludes = validateIncludes builder includes
      in foldl (\<lambda>dataQuery include. dataQuery @ [QPreload include]) dataQuery validatedIncludes)"

text \<open>Lines 284 to 298: the statement that is counted, from the filtered table query.\<close>

definition buildCountQuery :: "PaginatedQueryOptions \<Rightarrow> query \<Rightarrow> query" where
  "buildCountQuery options countQuery =
     (let countQuery =
            (if EnableSoftDelete options then countQuery @ [QWhere ''deleted_at IS NULL'' []]
             else countQuery)
      in if CustomCountQuery options \<noteq> [] then countQuery @ [QRaw (CustomCountQuery options)]
         else countQuery)"

definition PaginatedQueryWithOptions ::
  "'row DB \<Rightarrow> QueryBuilder \<Rightarrow> PaginationRequest \<Rightarrow> string list \<Rightarrow> PaginatedQueryOptions \<Rightarrow>
   panic + (('row list \<times> int \<times> error option) \<times> event list)"
where
  "PaginatedQueryWithOptions db builder pagination includes options =
     (case ApplyFilters builder (db_Table (GetTableName builder)) of
        Inl p \<Rightarrow> Inl p
      | Inr countQuery \<Rightarrow>
          let countQuery = buildCountQuery options countQuery
          in (case db_Count db countQuery of
                Inl err \<Rightarrow>
                  Inr (([], 0, Some (Errorf ''failed to count records: '' err)),
                       [CountIssued countQuery])
              | Inr totalCount \<Rightarrow>
                  (case ApplyFilters builder (db_Table (GetTableName builder)) of
                     Inl p \<Rightarrow> Inl p
                   | Inr dataQuery \<Rightarrow>
                       let dataQuery = buildDataQuery builder pagination includes options dataQuery
                       in (case db_Find db dataQuery of
                             Inl err \<Rightarrow>
                               Inr (([], 0, Some (Errorf ''failed to fetch records: '' err)),
                                    [CountIssued countQuery, FindIssued dataQuery])
                           | Inr result \<Rightarrow>
                               Inr ((result, totalCount, None),
                                    [CountIssued countQuery, FindIssued dataQuery])))))"

text \<open>A \<open>DynamicFilter\<close> as a \<open>QueryBuilder\<close>.\<close>

definition DynamicFilter_builder :: "unicode_tables \<Rightarrow> DynamicFilter \<Rightarrow> QueryBuilder" where
  "DynamicFilter_builder U d =
     \<lparr>ApplyFilters = DynamicFilter_ApplyFilters U d,
      GetTableName = TableName d,
      GetDefaultSort = DynamicFilter_GetDefaultSort d,
      GetSearchFields = SearchFields d,
      GetAllowedIncludes = None\<rparr>"

section \<open>The statements of the specification\<close>

text \<open>
  The maximal page as the specification words it: the quotient rounded up in exact
  arithmetic, and at least 1.
\<close>

definition spec_maxPage :: "int \<Rightarrow> int \<Rightarrow> int" where
  "spec_maxPage totalCount perPage = max 1 \<lceil>(of_int totalCount :: rat) / of_int perPage\<rceil>"

text \<open>What binding leaves as page and perPage, by the parameter's text.\<close>

definition bound_Page :: "string \<Rightarrow> int" where
  "bound_Page pageStr = (case Atoi pageStr of Some n \<Rightarrow> if 0 < n then n else 1 | None \<Rightarrow> 1)"

definition bound_PerPage :: "string \<Rightarrow> int" where
  "bound_PerPage perPageStr =
     (case Atoi perPageStr of Some n \<Rightarrow> if 0 < n \<and> n \<le> 100 then n else 10 | None \<Rightarrow> 10)"



text \<open>The characters of a valid identifier, and the sort clauses of a query.\<close>

definition ident_alphabet :: string where
  "ident_alphabet =
     ''abcdefghijklmnopqrstuvwxyzABCDEFGHIJKLMNOPQRSTUVWXYZ0123456789_.''"

definition is_QOrder :: "qop \<Rightarrow> bool" where
  "is_QOrder op = (case op of QOrder _ \<Rightarrow> True | _ \<Rightarrow> False)"

text \<open>The spellings of the operators that \<open>buildCondition\<close> names.\<close>

definition recognized_operators :: "string list" where
  "recognized_operators =
     [''='', ''EQ'', ''EQUALS'', ''!='', ''NE'', ''NOT_EQUALS'', ''>'', ''GT'', ''GREATER_THAN'',
      ''>='', ''GTE'', ''GREATER_THAN_EQUALS'', ''<'', ''LT'', ''LESS_THAN'',
      ''<='', ''LTE'', ''LESS_THAN_EQUALS'', ''LIKE'', ''CONTAINS'', ''ILIKE'', ''ICONTAINS'',
      ''IN'', ''NOT_IN'', ''IS_NULL'', ''IS_NOT_NULL'']"

section \<open>Example inputs\<close>

text \<open>A request with \<open>page=3&per_page=500&order=DESC\<close>.\<close>

definition example_ctx :: gin_Context where
  "example_ctx key =
     (if key = ''page'' then ''3''
      else if key = ''per_page'' then ''500''
      else if key = ''order'' then ''DESC''
      else [])"

text \<open>
  Tables for inputs that are ASCII throughout, where they are not consulted, and the
  conversion of amd64, which gives the least \<open>int64\<close> for every value out of range.
\<close>

definition no_unicode :: unicode_tables where
  "no_unicode = \<lparr>upper_nonASCII = (\<lambda>s. s), fold_nonASCII = (\<lambda>s t. s = t)\<rparr>"

definition amd64_conversion :: "float64 \<Rightarrow> int" where
  "amd64_conversion a = - (2 ^ 63)"

text \<open>
  A builder without filter function, the default options, a request with a sort field
  that is not an identifier, and two databases that fail.
\<close>

definition example_builder :: QueryBuilder where
  "example_builder =
     \<lparr>ApplyFilters = Inr, GetTableName = ''posts'', GetDefaultSort = ''id asc'',
      GetSearchFields = [''title'', ''body''], GetAllowedIncludes = None\<rparr>"

definition example_options :: PaginatedQueryOptions where
  "example_options = \<lparr>Dialect = MySQL, EnableSoftDelete = False, CustomCountQuery = []\<rparr>"

definition example_request :: PaginationRequest where
  "example_request =
     \<lparr>Page = 2, PerPage = 10, Search = [], Sort = ''created_at;DROP TABLE x'', Order = ''asc''\<rparr>"

definition failing_count_db :: "unit DB" where
  "failing_count_db =
     \<lparr>db_Count = (\<lambda>q. Inl (BackendError ''connection refused'')), db_Find = (\<lambda>q. Inr [])\<rparr>"

definition failing_find_db :: "unit DB" where
  "failing_find_db =
     \<lparr>db_Count = (\<lambda>q. Inr 25), db_Find = (\<lambda>q. Inl (BackendError ''timeout''))\<rparr>"

text \<open>A database that counts 25 rows and fetches two, the rows being numbers.\<close>

definition working_db :: "nat DB" where
  "working_db = \<lparr>db_Count = (\<lambda>q. Inr 25), db_Find = (\<lambda>q. Inr [11, 12])\<rparr>"

text \<open>A model with three fields, and filter lists over it.\<close>

definition user_model :: go_type where
  "user_model =
     TPtr (TStruct
       [\<lparr>sf_Name = ''ID'', sf_gorm = ''primaryKey'', sf_json = ''id''\<rparr>,
        \<lparr>sf_Name = ''Name'', sf_gorm = ''column:name'', sf_json = ''name''\<rparr>,
        \<lparr>sf_Name = ''DeletedAt'', sf_gorm = ''column:deleted_at;index'', sf_json = ''-''\<rparr>])"

definition example_filter :: "FilterCondition list \<Rightarrow> DynamicFilter" where
  "example_filter fs =
     \<lparr>Pagination = \<lparr>Page = 1, PerPage = 10, Search = [], Sort = [], Order = ''asc''\<rparr>,
      Includes = [], Filters = fs, TableName = ''users'', Model = Some user_model,
      SearchFields = [], DefaultSort = []\<rparr>"

definition skipped_then_or :: "FilterCondition list" where
  "skipped_then_or =
     [\<lparr>Field_name = ''id'', Operator = ''='', Value = VNil, Logic = ''AND''\<rparr>,
      \<lparr>Field_name = ''name'', Operator = ''='', Value = VString ''bob'', Logic = ''or''\<rparr>]"

definition null_check :: "gvalue \<Rightarrow> FilterCondition list" where
  "null_check v = [\<lparr>Field_name = ''deleted_at'', Operator = ''IS_NULL'', Value = v, Logic = ''AND''\<rparr>]"

definition example_between :: FilterCondition where
  "example_between = \<lparr>Field_name = ''age'', Operator = ''between'', Value = VInt 3, Logic = ''AND''\<rparr>"

text \<open>Requests for \<open>CalculatePagination\<close>.\<close>

definition page_two_of_ten :: PaginationRequest where
  "page_two_of_ten = \<lparr>Page = 2, PerPage = 10, Search = [], Sort = [], Order = ''asc''\<rparr>"

definition negative_perPage :: PaginationRequest where
  "negative_perPage = \<lparr>Page = 1, PerPage = - 10, Search = [], Sort = [], Order = ''asc''\<rparr>"

definition one_per_page :: PaginationRequest where
  "one_per_page = \<lparr>Page = 1, PerPage = 1, Search = [], Sort = [], Order = ''asc''\<rparr>"

section \<open>Validate\<close>

lemma Validate_Page: "Page (Validate p) = (if Page p \<le> 0 then 1 else Page p)"
  by (simp add: Validate_def Let_def)

lemma Validate_PerPage: "PerPage (Validate p) = (if PerPage p \<le> 0 then 10 else PerPage p)"
  by (simp add: Validate_def Let_def)

lemma Validate_Order:
  "Order (Validate p) = (if Order p = ''desc'' then ''desc'' else ''asc'')"
  by (simp add: Validate_def Let_def)

lemma Validate_Search: "Search (Validate p) = Search p"
  by (simp add: Validate_def Let_def)

lemma Validate_Sort: "Sort (Validate p) = Sort p"
  by (simp add: Validate_def Let_def)

lemma Validate_more: "PaginationRequest.more (Validate p) = PaginationRequest.more p"
  by (simp add: Validate_def Let_def)

text \<open>
  C9: \<open>Validate\<close> is idempotent: a second call changes none of page, perPage, search,
  sort and order.
\<close>

theorem Validate_idempotent: "Validate (Validate p) = Validate p"
  by (rule PaginationRequest.equality)
     (simp_all add: Validate_Page Validate_PerPage Validate_Order Validate_Search
        Validate_Sort Validate_more)

text \<open>
  C3, as the code has it: \<open>Validate\<close> raises a non-positive page to 1 and a non-positive
  perPage to 10, and has no upper bound: perPage is at most 100 after the call exactly
  when it was before.
\<close>

theorem Validate_bounds:
  "1 \<le> Page (Validate p) \<and> 1 \<le> PerPage (Validate p) \<and>
   (PerPage (Validate p) \<le> 100 \<longleftrightarrow> PerPage p \<le> 100)"
  by (simp add: Validate_Page Validate_PerPage)

theorem Validate_bounds_witness:
  "PerPage (Validate \<lparr>Page = - 4, PerPage = 0, Search = [], Sort = [], Order = ''up''\<rparr>) = 10 \<and>
   Page (Validate \<lparr>Page = - 4, PerPage = 0, Search = [], Sort = [], Order = ''up''\<rparr>) = 1"
  using Validate_bounds [of "\<lparr>Page = - 4, PerPage = 0, Search = [], Sort = [], Order = ''up''\<rparr>"]
  by (simp add: Validate_Page Validate_PerPage)

text \<open>
  The bound \<open>perPage \<le> 100\<close> of C3 fails for a request that enters \<open>Validate\<close> with
  perPage 500.
\<close>

theorem Validate_perPage_counterexample:
  "\<not> (1 \<le> Page (Validate \<lparr>Page = 1, PerPage = 500, Search = [], Sort = [], Order = ''asc''\<rparr>) \<and>
      1 \<le> PerPage (Validate \<lparr>Page = 1, PerPage = 500, Search = [], Sort = [], Order = ''asc''\<rparr>) \<and>
      PerPage (Validate \<lparr>Page = 1, PerPage = 500, Search = [], Sort = [], Order = ''asc''\<rparr>) \<le> 100)"
  by (simp add: Validate_PerPage)

section \<open>BindPagination\<close>

lemma Atoi_Nil: "Atoi [] = None"
  by (simp add: Atoi_def)

lemma BindPagination_Page: "Page (BindPagination ctx) = bound_Page (ctx ''page'')"
  by (simp add: BindPagination_def Validate_Page Let_def bound_Page_def Atoi_Nil
      split: option.splits)

lemma BindPagination_PerPage: "PerPage (BindPagination ctx) = bound_PerPage (ctx ''per_page'')"
  by (simp add: BindPagination_def Validate_PerPage Let_def bound_PerPage_def Atoi_Nil
      split: option.splits)

lemma BindPagination_Order:
  "Order (BindPagination ctx) = (if ctx ''order'' = ''desc'' then ''desc'' else ''asc'')"
  by (simp add: BindPagination_def Validate_Order Let_def split: option.splits)

lemma BindPagination_Search: "Search (BindPagination ctx) = ctx ''search''"
  by (simp add: BindPagination_def Validate_Search Let_def split: option.splits)

lemma BindPagination_Sort: "Sort (BindPagination ctx) = ctx ''sort''"
  by (simp add: BindPagination_def Validate_Sort Let_def split: option.splits)

lemma bound_Page_ge: "1 \<le> bound_Page s"
  by (simp add: bound_Page_def split: option.splits)

lemma bound_PerPage_range: "1 \<le> bound_PerPage s \<and> bound_PerPage s \<le> 100"
  by (simp add: bound_PerPage_def split: option.splits)

text \<open>
  C4: whatever the query parameters are, the bound request has \<open>page \<ge> 1\<close>,
  \<open>1 \<le> perPage \<le> 100\<close> and an order of asc or desc. A page that \<open>Atoi\<close> rejects or that
  is not positive leaves page 1, a per_page that \<open>Atoi\<close> rejects or that is outside 1..100
  leaves perPage 10, and the order is the parameter only when that is asc or desc.
\<close>

theorem BindPagination_bounds:
  "1 \<le> Page (BindPagination ctx) \<and>
   1 \<le> PerPage (BindPagination ctx) \<and> PerPage (BindPagination ctx) \<le> 100 \<and>
   (Order (BindPagination ctx) = ''asc'' \<or> Order (BindPagination ctx) = ''desc'') \<and>
   Page (BindPagination ctx) =
     (case Atoi (ctx ''page'') of Some n \<Rightarrow> if 0 < n then n else 1 | None \<Rightarrow> 1) \<and>
   PerPage (BindPagination ctx) =
     (case Atoi (ctx ''per_page'') of
        Some n \<Rightarrow> if 0 < n \<and> n \<le> 100 then n else 10 | None \<Rightarrow> 10) \<and>
   Order (BindPagination ctx) =
     (if ctx ''order'' = ''asc'' \<or> ctx ''order'' = ''desc'' then ctx ''order'' else ''asc'')"
proof -
  have "1 \<le> Page (BindPagination ctx)"
    by (simp add: BindPagination_Page bound_Page_ge)
  moreover have "1 \<le> PerPage (BindPagination ctx) \<and> PerPage (BindPagination ctx) \<le> 100"
    by (simp add: BindPagination_PerPage bound_PerPage_range)
  moreover have "Order (BindPagination ctx) = ''asc'' \<or> Order (BindPagination ctx) = ''desc''"
    by (simp add: BindPagination_Order)
  moreover have "Page (BindPagination ctx) =
      (case Atoi (ctx ''page'') of Some n \<Rightarrow> if 0 < n then n else 1 | None \<Rightarrow> 1)"
    by (simp add: BindPagination_Page bound_Page_def)
  moreover have "PerPage (BindPagination ctx) =
      (case Atoi (ctx ''per_page'') of
         Some n \<Rightarrow> if 0 < n \<and> n \<le> 100 then n else 10 | None \<Rightarrow> 10)"
    by (simp add: BindPagination_PerPage bound_PerPage_def)
  moreover have "Order (BindPagination ctx) =
      (if ctx ''order'' = ''asc'' \<or> ctx ''order'' = ''desc'' then ctx ''order'' else ''asc'')"
    by (simp add: BindPagination_Order)
  ultimately show ?thesis by blast
qed

lemma Atoi_3: "Atoi ''3'' = Some 3"
  by (simp add: Atoi_def isDigit_def)

lemma Atoi_500: "Atoi ''500'' = Some 500"
  by (simp add: Atoi_def isDigit_def)

theorem BindPagination_bounds_witness:
  "Page (BindPagination example_ctx) = 3 \<and> PerPage (BindPagination example_ctx) = 10 \<and>
   Order (BindPagination example_ctx) = ''asc''"
  using BindPagination_bounds [of example_ctx]
  by (simp add: example_ctx_def Atoi_3 Atoi_500)

section \<open>CalculatePagination\<close>

subsection \<open>Rounding\<close>

lemma rhe_of_int: "round_half_even (of_int n) = n"
  by (simp add: round_half_even_def)

lemma rhe_le: "x \<le> of_int N \<Longrightarrow> round_half_even x \<le> N"
proof -
  assume a: "x \<le> of_int N"
  have f: "\<lfloor>x\<rfloor> \<le> N" using a by (simp add: floor_le_iff) 
  show ?thesis
  proof (cases "\<lfloor>x\<rfloor> = N")
    case True
    then have "x = of_int N" using a by (metis of_int_floor_le order_antisym)
    then show ?thesis by (simp add: rhe_of_int)
  next
    case False
    then have "\<lfloor>x\<rfloor> + 1 \<le> N" using f by simp
    then show ?thesis by (simp add: round_half_even_def Let_def)
  qed
qed

lemma rhe_ge: "of_int N \<le> x \<Longrightarrow> N \<le> round_half_even x"
proof -
  assume a: "of_int N \<le> x"
  then have "N \<le> \<lfloor>x\<rfloor>" by (simp add: le_floor_iff)
  then show ?thesis by (simp add: round_half_even_def Let_def)
qed

lemma rhe_gt: "of_int N + 1 / 2 < x \<Longrightarrow> N < round_half_even x"
proof -
  assume a: "of_int N + 1 / 2 < x"
  then have f: "N \<le> \<lfloor>x\<rfloor>" by (simp add: le_floor_iff)
  show ?thesis
  proof (cases "\<lfloor>x\<rfloor> = N")
    case True
    then have "x - of_int \<lfloor>x\<rfloor> > 1 / 2" using a by simp
    then show ?thesis using True by (simp add: round_half_even_def Let_def)
  next
    case False
    then have "N < \<lfloor>x\<rfloor>" using f by simp
    then show ?thesis by (simp add: round_half_even_def Let_def)
  qed
qed

lemma binade_bounds:
  assumes "x \<noteq> 0"
  shows "2 powi (binade x) \<le> \<bar>x\<bar> \<and> \<bar>x\<bar> < 2 powi (binade x + 1)"
proof -
  obtain p q where pq: "quotient_of \<bar>x\<bar> = (p, q)" by (cases "quotient_of \<bar>x\<bar>")
  have q: "q > 0" using pq by (rule quotient_of_denom_pos)
  have x: "\<bar>x\<bar> = of_int p / of_int q" using pq by (rule quotient_of_div)
  have xpos: "\<bar>x\<bar> > 0" using assms by simp
  have p: "p > 0" using xpos q unfolding x by (simp add: zero_less_divide_iff)
  define lp where "lp = bitlen p"
  define lq where "lq = bitlen q"
  have lp1: "lp \<ge> 1" and lq1: "lq \<ge> 1"
    using p q by (simp_all add: lp_def lq_def bitlen_alt_def)
  have bp: "2 ^ nat (lp - 1) \<le> p" "p < 2 ^ nat lp"
    using bitlen_bounds [OF p] by (simp_all add: lp_def)
  have bq: "2 ^ nat (lq - 1) \<le> q" "q < 2 ^ nat lq"
    using bitlen_bounds [OF q] by (simp_all add: lq_def)
  have rp: "(2::rat) powi (lp - 1) \<le> of_int p" "(of_int p :: rat) < 2 powi lp"
  proof -
    have "(of_int (2 ^ nat (lp - 1)) :: rat) \<le> of_int p" using bp(1) by (simp only: of_int_le_iff)
    then show "(2::rat) powi (lp - 1) \<le> of_int p" using lp1 by (simp add: power_int_def)
    have "(of_int p :: rat) < of_int (2 ^ nat lp)" using bp(2) by (simp only: of_int_less_iff)
    then show "(of_int p :: rat) < 2 powi lp" using lp1 by (simp add: power_int_def)
  qed
  have rq: "(2::rat) powi (lq - 1) \<le> of_int q" "(of_int q :: rat) < 2 powi lq"
  proof -
    have "(of_int (2 ^ nat (lq - 1)) :: rat) \<le> of_int q" using bq(1) by (simp only: of_int_le_iff)
    then show "(2::rat) powi (lq - 1) \<le> of_int q" using lq1 by (simp add: power_int_def)
    have "(of_int q :: rat) < of_int (2 ^ nat lq)" using bq(2) by (simp only: of_int_less_iff)
    then show "(of_int q :: rat) < 2 powi lq" using lq1 by (simp add: power_int_def)
  qed
  have qpos: "(of_int q :: rat) > 0" using q by simp
  have low: "(2::rat) powi (lp - lq - 1) \<le> \<bar>x\<bar>"
  proof -
    have "(2::rat) powi (lp - lq - 1) * of_int q \<le> 2 powi (lp - lq - 1) * 2 powi lq"
      using rq(2) by (simp add: mult_left_mono)
    also have "\<dots> = 2 powi (lp - 1)"
      by (simp add: power_int_add [symmetric])
    also have "\<dots> \<le> of_int p" by (rule rp(1))
    finally show ?thesis unfolding x using qpos by (simp add: pos_le_divide_eq)
  qed
  have high: "\<bar>x\<bar> < (2::rat) powi (lp - lq + 1)"
  proof -
    have "(of_int p :: rat) < 2 powi lp" by (rule rp(2))
    also have "\<dots> = 2 powi (lp - lq + 1) * 2 powi (lq - 1)"
      by (simp add: power_int_add [symmetric])
    also have "\<dots> \<le> 2 powi (lp - lq + 1) * of_int q"
      using rq(1) by (simp add: mult_left_mono)
    finally show ?thesis unfolding x using qpos by (simp add: pos_divide_less_eq)
  qed
  show ?thesis
  proof (cases "(2::rat) powi (lp - lq) \<le> \<bar>x\<bar>")
    case True
    then have "binade x = lp - lq" by (simp add: binade_def pq lp_def lq_def)
    then show ?thesis using True high by simp
  next
    case False
    then have "binade x = lp - lq - 1" by (simp add: binade_def pq lp_def lq_def)
    then show ?thesis using False low by simp
  qed
qed

lemma binade_le_52:
  assumes "x \<noteq> 0" "\<bar>x\<bar> < 2 ^ 53"
  shows "binade x \<le> 52"
proof (rule ccontr)
  assume "\<not> binade x \<le> 52"
  then have "53 \<le> binade x" by simp
  then have "(2::rat) powi 53 \<le> 2 powi binade x"
    by (intro power_int_increasing) simp_all
  also have "\<dots> \<le> \<bar>x\<bar>" using binade_bounds [OF assms(1)] by simp
  finally show False using assms(2) by simp
qed

lemma round_float64_scaled:
  assumes "x \<noteq> 0" "binade x \<le> 52"
  shows "round_float64 x =
         of_int (round_half_even (x * 2 ^ nat (52 - binade x))) / 2 ^ nat (52 - binade x)"
proof -
  have "(2::rat) powi (binade x - 52) = inverse (2 ^ nat (52 - binade x))"
    using assms(2)
    by (cases "binade x = 52") (simp_all add: power_int_def power_one_over inverse_eq_divide)
  then show ?thesis
    using assms(1) by (simp add: round_float64_def Let_def divide_inverse)
qed

lemma pow2_scale:
  assumes "e \<le> 52"
  shows "(2::rat) powi e * 2 ^ nat (52 - e) = 2 ^ 52"
proof -
  have a: "(2::rat) ^ nat (52 - e) = 2 powi (52 - e)"
    using assms by (simp add: power_int_def)
  have "(2::rat) powi (e + (52 - e)) = 2 powi e * 2 powi (52 - e)"
    by (rule power_int_add) simp
  then have "(2::rat) powi e * 2 powi (52 - e) = 2 powi 52" by simp
  then show ?thesis unfolding a by (simp add: power_int_def)
qed

lemma round_float64_exact_int:
  assumes "0 \<le> n" "n < 2 ^ 53"
  shows "round_float64 (of_int n) = of_int n"
proof (cases "n = 0")
  case True
  then show ?thesis by (simp add: round_float64_def)
next
  case False
  let ?x = "of_int n :: rat"
  have nz: "?x \<noteq> 0" using False by simp
  have "\<bar>?x\<bar> < 2 ^ 53"
  proof -
    have "(of_int n :: rat) < of_int (2 ^ 53)" using assms(2) by (simp only: of_int_less_iff)
    then show ?thesis using assms(1) by simp
  qed
  then have e: "binade ?x \<le> 52" by (rule binade_le_52 [OF nz])
  have "?x * 2 ^ nat (52 - binade ?x) = of_int (n * 2 ^ nat (52 - binade ?x))" by simp
  then have "round_half_even (?x * 2 ^ nat (52 - binade ?x)) = n * 2 ^ nat (52 - binade ?x)"
    by (simp only: rhe_of_int)
  then show ?thesis by (simp add: round_float64_scaled [OF nz e])
qed

lemma ceiling_round_float64_quotient:
  assumes t: "0 < t" "t < 2 ^ 53" and p: "0 < p"
  shows "\<lceil>round_float64 (of_int t / of_int p)\<rceil> = \<lceil>(of_int t :: rat) / of_int p\<rceil>"
proof -
  define x where "x = (of_int t :: rat) / of_int p"
  define c where "c = \<lceil>x\<rceil>"
  define j where "j = nat (52 - binade x)"
  define S where "S = (2::rat) ^ j"
  have pr: "(of_int p :: rat) > 0" using p by simp
  have tr: "(of_int t :: rat) > 0" using t by simp
  have xpos: "x > 0" unfolding x_def using tr pr by (rule divide_pos_pos)
  have nz: "x \<noteq> 0" using less_imp_neq [OF xpos] by (rule not_sym)
  have xp: "x * of_int p = of_int t" unfolding x_def using pr by simp
  have t53: "(of_int t :: rat) < 2 ^ 53"
  proof -
    have "(of_int t :: rat) < of_int (2 ^ 53)" using t(2) by (simp only: of_int_less_iff)
    then show ?thesis by simp
  qed
  have "1 \<le> p" using p by simp
  then have "of_int 1 \<le> (of_int p :: rat)" by (simp only: of_int_le_iff)
  then have p1: "1 \<le> (of_int p :: rat)" by simp
  have "x * 1 \<le> x * of_int p" using p1 xpos by (intro mult_left_mono) simp_all
  then have xle: "x \<le> of_int t" by (simp add: xp)
  have "\<bar>x\<bar> < 2 ^ 53" using xle t53 xpos by simp
  then have e: "binade x \<le> 52" by (rule binade_le_52 [OF nz])
  have Spos: "S > 0" by (simp add: S_def)
  have rf: "round_float64 x = of_int (round_half_even (x * S)) / S"
    unfolding S_def j_def by (rule round_float64_scaled [OF nz e])
  have S_int: "S = of_int (2 ^ j)" by (simp add: S_def)
  \<comment> \<open>the upper bound\<close>
  have "x \<le> of_int c" by (simp add: c_def)
  then have "x * S \<le> of_int c * S" using Spos by (intro mult_right_mono) simp_all
  then have "x * S \<le> of_int (c * 2 ^ j)" by (simp add: S_int)
  then have "round_half_even (x * S) \<le> c * 2 ^ j" by (rule rhe_le)
  then have "(of_int (round_half_even (x * S)) :: rat) \<le> of_int (c * 2 ^ j)"
    by (simp only: of_int_le_iff)
  then have "(of_int (round_half_even (x * S)) :: rat) \<le> of_int c * S"
    by (simp add: S_int)
  then have up: "round_float64 x \<le> of_int c"
    unfolding rf using Spos by (simp add: pos_divide_le_eq)
  \<comment> \<open>the lower bound\<close>
  have "of_int (c - 1) < x" unfolding c_def using ceiling_correct [of x] by simp
  then have "(of_int (c - 1) :: rat) * of_int p < x * of_int p"
    using pr by (intro mult_strict_right_mono) simp_all
  then have "(of_int ((c - 1) * p) :: rat) < of_int t" by (simp add: xp)
  then have "(c - 1) * p < t" by (simp only: of_int_less_iff)
  then have "(c - 1) * p + 1 \<le> t" by simp
  then have "(of_int ((c - 1) * p + 1) :: rat) \<le> of_int t" by (simp only: of_int_le_iff)
  then have gap: "(of_int (c - 1) :: rat) * of_int p + 1 \<le> x * of_int p" by (simp add: xp)
  have "(2::rat) powi binade x \<le> x" using binade_bounds [OF nz] xpos by simp
  then have "(2::rat) powi binade x * S \<le> x * S" using Spos by (intro mult_right_mono) simp_all
  then have "(2::rat) ^ 52 \<le> x * S" unfolding S_def j_def by (simp only: pow2_scale [OF e])
  then have "(2::rat) ^ 52 * of_int p \<le> (x * S) * of_int p"
    using pr by (intro mult_right_mono) simp_all
  also have "\<dots> = of_int t * S" using xp by (simp add: mult.assoc mult.commute mult.left_commute)
  also have "\<dots> < 2 ^ 53 * S" using t53 Spos by (intro mult_strict_right_mono) simp_all
  finally have pS: "(of_int p :: rat) < 2 * S" by simp
  have half: "1 / 2 < S / of_int p"
    using pS pr by (simp add: pos_less_divide_eq)
  have "(of_int (c - 1) * of_int p + 1) * (S / of_int p) \<le> (x * of_int p) * (S / of_int p)"
    using gap Spos pr by (intro mult_right_mono) simp_all
  then have "of_int (c - 1) * S + S / of_int p \<le> x * S"
    using pr by (simp add: algebra_simps)
  then have "of_int (c - 1) * S + 1 / 2 < x * S" using half by linarith
  then have "of_int ((c - 1) * 2 ^ j) + 1 / 2 < x * S" by (simp add: S_int)
  then have "(c - 1) * 2 ^ j < round_half_even (x * S)" by (rule rhe_gt)
  then have "(of_int ((c - 1) * 2 ^ j) :: rat) < of_int (round_half_even (x * S))"
    by (simp only: of_int_less_iff)
  then have "of_int (c - 1) * S < (of_int (round_half_even (x * S)) :: rat)"
    by (simp add: S_int)
  then have low: "of_int c - 1 < round_float64 x"
    unfolding rf using Spos by (simp add: pos_less_divide_eq)
  have "\<lceil>round_float64 x\<rceil> = c"
    using low up by (rule ceiling_unique)
  then show ?thesis by (simp add: c_def x_def)
qed

lemma round_float64_large_int:
  assumes "2 ^ 53 \<le> n"
  shows "2 ^ 53 \<le> round_float64 (of_int n)"
proof -
  define x where "x = (of_int n :: rat)"
  have "(of_int (2 ^ 53) :: rat) \<le> of_int n" using assms by (simp only: of_int_le_iff)
  then have x53: "2 ^ 53 \<le> x" by (simp add: x_def)
  then have xpos: "0 < x" by (rule less_le_trans [rotated]) simp
  have nz: "x \<noteq> 0" using less_imp_neq [OF xpos] by (rule not_sym)
  have b: "2 powi binade x \<le> x" "x < 2 powi (binade x + 1)"
    using binade_bounds [OF nz] xpos by simp_all
  have e: "53 \<le> binade x"
  proof (rule ccontr)
    assume "\<not> 53 \<le> binade x"
    then have "binade x + 1 \<le> 53" by simp
    then have "(2::rat) powi (binade x + 1) \<le> 2 powi 53"
      by (intro power_int_increasing) simp_all
    with b(2) have "x < 2 powi 53" by (rule less_le_trans)
    then show False using x53 by simp
  qed
  define u where "u = (2::rat) powi (binade x - 52)"
  have upos: "0 < u" by (simp add: u_def)
  have split: "(2::rat) powi binade x = 2 ^ 52 * u"
  proof -
    have "(2::rat) powi (52 + (binade x - 52)) = 2 powi 52 * 2 powi (binade x - 52)"
      by (rule power_int_add) simp
    then show ?thesis by (simp add: u_def)
  qed
  have "2 ^ 52 * u \<le> x" using b(1) by (simp only: split)
  then have "(2::rat) ^ 52 \<le> x / u" using upos by (simp add: pos_le_divide_eq)
  then have "of_int (2 ^ 52) \<le> x / u" by simp
  then have "2 ^ 52 \<le> round_half_even (x / u)" by (rule rhe_ge)
  then have "(of_int (2 ^ 52) :: rat) \<le> of_int (round_half_even (x / u))"
    by (simp only: of_int_le_iff)
  then have "(2::rat) ^ 52 * u \<le> of_int (round_half_even (x / u)) * u"
    using upos by (intro mult_right_mono) simp_all
  then have "(2::rat) powi binade x \<le> round_float64 x"
    using nz by (simp add: round_float64_def Let_def u_def [symmetric] split)
  moreover have "(2::rat) powi 53 \<le> 2 powi binade x"
    using e by (intro power_int_increasing) simp_all
  ultimately have "(2::rat) powi 53 \<le> round_float64 x" by (rule order_trans [rotated])
  then show ?thesis by (simp add: x_def)
qed

lemma round_float64_unit_interval:
  assumes "0 < y" "y < 1"
  shows "0 < round_float64 y \<and> round_float64 y \<le> 1"
proof -
  define j where "j = nat (52 - binade y)"
  define S where "S = (2::rat) ^ j"
  have nz: "y \<noteq> 0" using less_imp_neq [OF assms(1)] by (rule not_sym)
  have "\<bar>y\<bar> < 2 ^ 53" using assms by simp
  then have e: "binade y \<le> 52" by (rule binade_le_52 [OF nz])
  have Spos: "S > 0" by (simp add: S_def)
  have S_int: "S = of_int (2 ^ j)" by (simp add: S_def)
  have rf: "round_float64 y = of_int (round_half_even (y * S)) / S"
    unfolding S_def j_def by (rule round_float64_scaled [OF nz e])
  have "(2::rat) powi binade y \<le> y" using binade_bounds [OF nz] assms(1) by simp
  then have "(2::rat) powi binade y * S \<le> y * S" using Spos by (intro mult_right_mono) simp_all
  then have "(2::rat) ^ 52 \<le> y * S" unfolding S_def j_def by (simp only: pow2_scale [OF e])
  then have "of_int (2 ^ 52) \<le> y * S" by simp
  then have "2 ^ 52 \<le> round_half_even (y * S)" by (rule rhe_ge)
  then have "0 < round_half_even (y * S)" by simp
  then have "(0::rat) < of_int (round_half_even (y * S))" by (simp only: of_int_0_less_iff)
  then have pos: "0 < round_float64 y" unfolding rf using Spos by simp
  have "y * S \<le> 1 * S" using assms(2) Spos by (intro mult_right_mono) simp_all
  then have "y * S \<le> of_int (2 ^ j)" by (simp add: S_int)
  then have "round_half_even (y * S) \<le> 2 ^ j" by (rule rhe_le)
  then have "(of_int (round_half_even (y * S)) :: rat) \<le> of_int (2 ^ j)"
    by (simp only: of_int_le_iff)
  then have "(of_int (round_half_even (y * S)) :: rat) \<le> S" by (simp add: S_int)
  then have "round_float64 y \<le> 1" unfolding rf using Spos by (simp add: pos_divide_le_eq)
  then show ?thesis using pos by simp
qed

subsection \<open>The maximal page\<close>

lemma int64_of_float64_of_int:
  "- (2 ^ 63) \<le> c \<Longrightarrow> c < 2 ^ 63 \<Longrightarrow> int64_of_float64 impl (Finite (of_int c)) = c"
  by (simp add: int64_of_float64_def Let_def)

lemma MaxPage_zero_total:
  assumes "1 \<le> PerPage p"
  shows "MaxPage (CalculatePagination impl p 0) = 1"
proof -
  have nz: "round_float64 (of_int (PerPage p)) \<noteq> 0"
  proof (cases "PerPage p < 2 ^ 53")
    case True
    then have "round_float64 (of_int (PerPage p)) = of_int (PerPage p)"
      using assms by (intro round_float64_exact_int) simp_all
    then show ?thesis using assms by simp
  next
    case False
    then have "2 ^ 53 \<le> round_float64 (of_int (PerPage p))"
      by (intro round_float64_large_int) simp
    then show ?thesis by auto
  qed
  have "float64_div (float64_of_int 0) (float64_of_int (PerPage p)) = Finite 0"
    using nz by (simp add: float64_div_def float64_of_int_def round_float64_def)
  then show ?thesis
    by (simp add: CalculatePagination_def math_Ceil_def int64_of_float64_def Let_def)
qed

lemma MaxPage_small_perPage:
  assumes t: "0 < t" "t < 2 ^ 53" and p: "1 \<le> PerPage p" "PerPage p < 2 ^ 53"
  shows "MaxPage (CalculatePagination impl p t) = \<lceil>(of_int t :: rat) / of_int (PerPage p)\<rceil> \<and>
         1 \<le> \<lceil>(of_int t :: rat) / of_int (PerPage p)\<rceil>"
proof -
  define c where "c = \<lceil>(of_int t :: rat) / of_int (PerPage p)\<rceil>"
  have et: "round_float64 (of_int t) = of_int t"
    using t by (intro round_float64_exact_int) simp_all
  have ep: "round_float64 (of_int (PerPage p)) = of_int (PerPage p)"
    using p by (intro round_float64_exact_int) simp_all
  have pnz: "(of_int (PerPage p) :: rat) \<noteq> 0" using p by simp
  have pr: "(of_int (PerPage p) :: rat) \<ge> 1" using p(1) by simp
  have tr: "(of_int t :: rat) > 0" using t by simp
  have q: "float64_div (float64_of_int t) (float64_of_int (PerPage p)) =
      Finite (round_float64 (of_int t / of_int (PerPage p)))"
    using pnz by (simp add: float64_div_def float64_of_int_def et ep)
  have cq: "\<lceil>round_float64 (of_int t / of_int (PerPage p))\<rceil> = c"
    unfolding c_def using t p by (intro ceiling_round_float64_quotient) simp_all
  have "(0::rat) < of_int t / of_int (PerPage p)" using tr pr by simp
  then have c1: "1 \<le> c" unfolding c_def by (simp add: ceiling_le_iff less_ceiling_iff) 
  have "(of_int t :: rat) / of_int (PerPage p) \<le> of_int t"
    using tr pr by (simp add: divide_le_eq mult_le_cancel_left1 pos_divide_le_eq)
  then have "c \<le> t" unfolding c_def by (simp add: ceiling_le_iff)
  then have range: "- (2 ^ 63) \<le> c" "c < 2 ^ 63" using c1 t by simp_all
  have "int64_of_float64 impl (math_Ceil (Finite (round_float64 (of_int t / of_int (PerPage p))))) = c"
    by (simp add: math_Ceil_def cq int64_of_float64_of_int [OF range])
  then have "MaxPage (CalculatePagination impl p t) = c"
    using c1 by (simp add: CalculatePagination_def q Let_def)
  then show ?thesis using c1 by (simp add: c_def)
qed

lemma MaxPage_large_perPage:
  assumes t: "0 < t" "t < 2 ^ 53" and p: "2 ^ 53 \<le> PerPage p"
  shows "MaxPage (CalculatePagination impl p t) = 1 \<and>
         \<lceil>(of_int t :: rat) / of_int (PerPage p)\<rceil> = 1"
proof -
  define r where "r = round_float64 (of_int (PerPage p))"
  have et: "round_float64 (of_int t) = of_int t"
    using t by (intro round_float64_exact_int) simp_all
  have r53: "2 ^ 53 \<le> r" unfolding r_def using p by (rule round_float64_large_int)
  have rpos: "0 < r" using r53 by (rule less_le_trans [rotated]) simp
  have rnz: "r \<noteq> 0" using less_imp_neq [OF rpos] by (rule not_sym)
  have tr: "(of_int t :: rat) > 0" using t by simp
  have t53: "(of_int t :: rat) < 2 ^ 53"
  proof -
    have "(of_int t :: rat) < of_int (2 ^ 53)" using t(2) by (simp only: of_int_less_iff)
    then show ?thesis by simp
  qed
  define y where "y = of_int t / r"
  have y0: "0 < y" unfolding y_def using tr rpos by (rule divide_pos_pos)
  have "of_int t < r" using t53 r53 by simp
  then have y1: "y < 1" unfolding y_def using rpos by (simp add: pos_divide_less_eq)
  have ry: "0 < round_float64 y" "round_float64 y \<le> 1"
    using round_float64_unit_interval [OF y0 y1] by simp_all
  have cy: "\<lceil>round_float64 y\<rceil> = 1"
    using ry by (intro ceiling_unique) simp_all
  have q: "float64_div (float64_of_int t) (float64_of_int (PerPage p)) = Finite (round_float64 y)"
    using rnz by (simp add: float64_div_def float64_of_int_def et r_def [symmetric] y_def)
  have "int64_of_float64 impl (math_Ceil (Finite (round_float64 y))) = 1"
    using int64_of_float64_of_int [of 1 impl] by (simp add: math_Ceil_def cy)
  then have m: "MaxPage (CalculatePagination impl p t) = 1"
    by (simp add: CalculatePagination_def q Let_def)
  have "(of_int (2 ^ 53) :: rat) \<le> of_int (PerPage p)" using p by (simp only: of_int_le_iff)
  then have pp: "(2::rat) ^ 53 \<le> of_int (PerPage p)" by simp
  then have ppos: "(0::rat) < of_int (PerPage p)" by (rule less_le_trans [rotated]) simp
  define z where "z = (of_int t :: rat) / of_int (PerPage p)"
  have z0: "0 < z" unfolding z_def using tr ppos by (rule divide_pos_pos)
  have "(of_int t :: rat) < of_int (PerPage p)" using t53 pp by simp
  then have "z < 1" unfolding z_def using ppos by (simp add: pos_divide_less_eq)
  then have "\<lceil>z\<rceil> = 1" using z0 by (intro ceiling_unique) simp_all
  then show ?thesis using m by (simp add: z_def)
qed

text \<open>
  C8, as the code has it: \<open>CalculatePagination\<close> returns the page, perPage and total it
  was given; for a request with \<open>perPage \<ge> 1\<close> (within \<open>int\<close>) and a total count from 0 up
  to, but not including, \<open>2 ^ 53\<close>, it returns \<open>maxPage = max 1 (ceil (total / perPage))\<close>,
  which is 1 for a total of 0.
\<close>

theorem CalculatePagination_maxPage:
  "resp_Page (CalculatePagination impl p totalCount) = Page p \<and>
   resp_PerPage (CalculatePagination impl p totalCount) = PerPage p \<and>
   Total (CalculatePagination impl p totalCount) = totalCount \<and>
   (1 \<le> PerPage p \<and> PerPage p < 2 ^ 63 \<and> 0 \<le> totalCount \<and> totalCount < 2 ^ 53 \<longrightarrow>
      MaxPage (CalculatePagination impl p totalCount) = spec_maxPage totalCount (PerPage p) \<and>
      (totalCount = 0 \<longrightarrow> MaxPage (CalculatePagination impl p totalCount) = 1))"
proof -
  have echo: "resp_Page (CalculatePagination impl p totalCount) = Page p \<and>
      resp_PerPage (CalculatePagination impl p totalCount) = PerPage p \<and>
      Total (CalculatePagination impl p totalCount) = totalCount"
    by (simp add: CalculatePagination_def Let_def)
  have zero: "spec_maxPage 0 (PerPage p) = 1"
    by (simp add: spec_maxPage_def)
  have main: "MaxPage (CalculatePagination impl p totalCount) = spec_maxPage totalCount (PerPage p)"
    if h: "1 \<le> PerPage p" "0 \<le> totalCount" "totalCount < 2 ^ 53"
  proof (cases "totalCount = 0")
    case True
    then show ?thesis using MaxPage_zero_total [OF h(1)] by (simp add: spec_maxPage_def)
  next
    case False
    then have t: "0 < totalCount" using h(2) by simp
    show ?thesis
    proof (cases "PerPage p < 2 ^ 53")
      case True
      then show ?thesis
        using MaxPage_small_perPage [OF t h(3) h(1)] by (simp add: spec_maxPage_def)
    next
      case False
      then have "2 ^ 53 \<le> PerPage p" by simp
      then show ?thesis
        using MaxPage_large_perPage [OF t h(3)] by (simp add: spec_maxPage_def)
    qed
  qed
  have "MaxPage (CalculatePagination impl p totalCount) = 1"
    if "1 \<le> PerPage p" "totalCount = 0"
    using main [OF that(1)] that(2) zero by simp
  then show ?thesis using echo main by simp
qed

lemma spec_maxPage_25_10: "spec_maxPage 25 10 = 3"
  by code_simp

lemma spec_maxPage_0_10: "spec_maxPage 0 10 = 1"
  by code_simp

theorem CalculatePagination_maxPage_witness:
  "MaxPage (CalculatePagination amd64_conversion page_two_of_ten 25) = 3 \<and>
   MaxPage (CalculatePagination amd64_conversion page_two_of_ten 0) = 1 \<and>
   resp_Page (CalculatePagination amd64_conversion page_two_of_ten 25) = 2 \<and>
   resp_PerPage (CalculatePagination amd64_conversion page_two_of_ten 25) = 10 \<and>
   Total (CalculatePagination amd64_conversion page_two_of_ten 25) = 25"
  using CalculatePagination_maxPage [of amd64_conversion page_two_of_ten 25]
    CalculatePagination_maxPage [of amd64_conversion page_two_of_ten 0]
  by (simp add: page_two_of_ten_def spec_maxPage_25_10 spec_maxPage_0_10)

lemma negative_perPage_value:
  "MaxPage (CalculatePagination amd64_conversion negative_perPage 25) = - 2"
  by code_simp

lemma negative_perPage_spec: "spec_maxPage 25 (PerPage negative_perPage) = 1"
  by code_simp

lemma huge_total_value:
  "MaxPage (CalculatePagination amd64_conversion one_per_page 9007199254740993) = 9007199254740992"
  by code_simp

lemma huge_total_spec: "spec_maxPage 9007199254740993 (PerPage one_per_page) = 9007199254740993"
  by code_simp

text \<open>
  The equation of C8 fails for a request that was not validated, here with perPage -10
  and 25 rows (the code tests \<open>maxPage = 0\<close> only), and for a total that \<open>float64\<close> cannot
  represent, here \<open>2 ^ 53 + 1\<close> rows at one per page.
\<close>

theorem CalculatePagination_counterexample:
  "MaxPage (CalculatePagination amd64_conversion negative_perPage 25) \<noteq>
     spec_maxPage 25 (PerPage negative_perPage) \<and>
   MaxPage (CalculatePagination amd64_conversion one_per_page 9007199254740993) \<noteq>
     spec_maxPage 9007199254740993 (PerPage one_per_page)"
  by (simp add: negative_perPage_value negative_perPage_spec huge_total_value huge_total_spec)

section \<open>buildCondition\<close>

text \<open>
  C10: a condition whose operator, in upper case, is none of the spellings that
  \<open>buildCondition\<close> names compiles to the equality predicate \<open>field = ?\<close>.
\<close>

theorem buildCondition_default:
  "strings_ToUpper U (Operator flt) \<notin> set recognized_operators \<Longrightarrow>
   buildCondition U flt = Field_name flt @ '' = ?''"
  by (simp add: buildCondition_def recognized_operators_def Let_def)

lemma ToUpper_between: "strings_ToUpper no_unicode ''between'' = ''BETWEEN''"
  by code_simp

theorem buildCondition_default_witness:
  "buildCondition no_unicode example_between = ''age = ?''"
  using buildCondition_default [of no_unicode example_between]
  by (simp add: example_between_def ToUpper_between recognized_operators_def)

lemma buildCondition_nonempty: "buildCondition U flt \<noteq> []"
  by (simp add: buildCondition_def Let_def)

section \<open>ApplyFilters\<close>

text \<open>
  One round of the loop: a condition with an empty field or a nil value, or with a field
  the model does not have, leaves the query as it is; a valid condition at index 0 is
  added with \<open>Where\<close> whatever its logic; a valid condition at a later index is added
  with \<open>Or\<close> when its logic is OR in upper case, and with \<open>Where\<close> otherwise.
\<close>

lemma ApplyFilters_loop_skip:
  "Field_name flt = [] \<or> Value flt = VNil \<Longrightarrow>
   ApplyFilters_loop U d i (flt # rest) query = ApplyFilters_loop U d (Suc i) rest query"
  by auto

lemma ApplyFilters_loop_invalid:
  "isValidField U d (Field_name flt) = Inr False \<Longrightarrow>
   ApplyFilters_loop U d i (flt # rest) query = ApplyFilters_loop U d (Suc i) rest query"
  by simp

lemma ApplyFilters_loop_first:
  "Field_name flt \<noteq> [] \<Longrightarrow> Value flt \<noteq> VNil \<Longrightarrow> isValidField U d (Field_name flt) = Inr True \<Longrightarrow>
   ApplyFilters_loop U d 0 (flt # rest) query =
     ApplyFilters_loop U d (Suc 0) rest (query @ [QWhere (buildCondition U flt) [Value flt]])"
  by (simp add: buildCondition_nonempty Let_def)

lemma ApplyFilters_loop_later:
  "Field_name flt \<noteq> [] \<Longrightarrow> Value flt \<noteq> VNil \<Longrightarrow> isValidField U d (Field_name flt) = Inr True \<Longrightarrow>
   0 < i \<Longrightarrow>
   ApplyFilters_loop U d i (flt # rest) query =
     ApplyFilters_loop U d (Suc i) rest
       (query @ [(if strings_ToUpper U (Logic flt) = ''OR'' then QOr else QWhere)
                   (buildCondition U flt) [Value flt]])"
  by (simp add: buildCondition_nonempty Let_def)

text \<open>
  C1: the first valid condition is to be combined with AND whatever its logic. The loop
  tests the index, not whether a condition was applied before: after a first condition
  that is skipped, a second condition with logic \<open>or\<close> is the first one applied, and it
  is applied with \<open>Or\<close>.
\<close>

theorem ApplyFilters_skipped_then_or:
  "DynamicFilter_ApplyFilters no_unicode (example_filter skipped_then_or) [QTable ''users''] =
     Inr [QTable ''users'', QOr ''name = ?'' [VString ''bob'']]"
  by code_simp

text \<open>
  C2: a condition with a null-check operator is not to be skipped because its value is
  nil. The loop skips every condition with a nil value before it looks at the operator:
  \<open>IS_NULL\<close> with a nil value adds nothing, although \<open>buildCondition\<close> compiles the same
  condition to a predicate without placeholder once a value is there.
\<close>

theorem ApplyFilters_null_check_nil:
  "DynamicFilter_ApplyFilters no_unicode (example_filter (null_check VNil)) [QTable ''users''] =
     Inr [QTable ''users''] \<and>
   DynamicFilter_ApplyFilters no_unicode (example_filter (null_check (VBool True))) [QTable ''users''] =
     Inr [QTable ''users'', QWhere ''deleted_at IS NULL'' [VBool True]]"
  by code_simp

section \<open>applyAutoSearch\<close>







section \<open>Sort fields\<close>

lemma isLower_iff: "isLower c \<longleftrightarrow> c \<in> set ''abcdefghijklmnopqrstuvwxyz''"
  by (cases c) (simp add: isLower_def)

lemma isUpper_iff: "isUpper c \<longleftrightarrow> c \<in> set ''ABCDEFGHIJKLMNOPQRSTUVWXYZ''"
  by (cases c) (simp add: isUpper_def)

lemma isDigit_iff: "isDigit c \<longleftrightarrow> c \<in> set ''0123456789''"
  by (cases c) (simp add: isDigit_def)

lemma validIdentChar_iff: "validIdentChar c \<longleftrightarrow> c \<in> set ident_alphabet"
  unfolding validIdentChar_def isLower_iff isUpper_iff isDigit_iff ident_alphabet_def
  by auto

lemma identLoop_iff: "identLoop s \<longleftrightarrow> (\<forall>c\<in>set s. validIdentChar c)"
  by (induction s) simp_all

lemma isValidSortField_iff:
  "isValidSortField field \<longleftrightarrow> field \<noteq> [] \<and> (\<forall>c\<in>set field. c \<in> set ident_alphabet)"
  by (auto simp add: isValidSortField_def identLoop_iff validIdentChar_iff)

lemma foldl_QPreload:
  "foldl (\<lambda>dataQuery include. dataQuery @ [QPreload include]) q incs = q @ map QPreload incs"
  by (induction incs arbitrary: q) simp_all

lemma filter_is_QOrder_applyAutoSearch:
  "filter is_QOrder (applyAutoSearch q t fs dialect) = filter is_QOrder q"
  by (simp add: applyAutoSearch_def Let_def is_QOrder_def split: prod.splits)

lemma filter_is_QOrder_Preload: "filter is_QOrder (map QPreload incs) = []"
  by (induction incs) (simp_all add: is_QOrder_def)

lemma buildDataQuery_rejected_sort:
  assumes "\<not> isValidSortField (Sort pagination)"
  shows "buildDataQuery builder pagination includes options q =
         buildDataQuery builder (pagination\<lparr>Sort := []\<rparr>) includes options q"
  using assms
  by (simp add: buildDataQuery_def Let_def GetOffset_def GetLimit_def split: prod.splits)

lemma buildDataQuery_default_order:
  assumes "\<not> isValidSortField (Sort pagination)"
  shows "filter is_QOrder (buildDataQuery builder pagination includes options q) =
         filter is_QOrder q @ [QOrder (GetDefaultSort builder)]"
  using assms
  by (simp add: buildDataQuery_def Let_def GetOffset_def GetLimit_def foldl_QPreload
      filter_is_QOrder_applyAutoSearch filter_is_QOrder_Preload is_QOrder_def split: prod.splits)

lemma PaginatedQuery_rejected_sort:
  assumes "\<not> isValidSortField (Sort pagination)"
  shows "PaginatedQueryWithOptions db builder pagination includes options =
         PaginatedQueryWithOptions db builder (pagination\<lparr>Sort := []\<rparr>) includes options"
proof (cases "ApplyFilters builder (db_Table (GetTableName builder))")
  case (Inl p)
  then show ?thesis by (simp add: PaginatedQueryWithOptions_def)
next
  case (Inr q)
  have eq: "buildDataQuery builder (pagination\<lparr>Sort := []\<rparr>) includes options q =
      buildDataQuery builder pagination includes options q"
    by (rule buildDataQuery_rejected_sort [OF assms, symmetric])
  show ?thesis
    by (simp only: PaginatedQueryWithOptions_def Inr sum.case eq)
qed

lemma PaginatedQuery_success:
  assumes "ApplyFilters builder (db_Table (GetTableName builder)) = Inr q"
    and "db_Count db (buildCountQuery options q) = Inr n"
    and "db_Find db (buildDataQuery builder pagination includes options q) = Inr rows"
  shows "PaginatedQueryWithOptions db builder pagination includes options =
         Inr ((rows, n, None),
              [CountIssued (buildCountQuery options q),
               FindIssued (buildDataQuery builder pagination includes options q)])"
  using assms by (simp add: PaginatedQueryWithOptions_def Let_def)

text \<open>
  C7: \<open>isValidSortField\<close> accepts a string exactly when it is not empty and all its
  characters are ASCII letters, digits, underscores or dots. With a sort field that is
  rejected, the data query gets one sort clause, the default sort of the builder; when
  the count and the fetch of that query succeed, the executor returns the rows fetched
  and the count with no error, having executed the count and that data query; and it
  runs as it does for a request without sort field.
\<close>

theorem isValidSortField_fallback:
  "(isValidSortField field \<longleftrightarrow> field \<noteq> [] \<and> (\<forall>c\<in>set field. c \<in> set ident_alphabet)) \<and>
   (\<not> isValidSortField (Sort pagination) \<longrightarrow>
      filter is_QOrder (buildDataQuery builder pagination includes options q) =
        filter is_QOrder q @ [QOrder (GetDefaultSort builder)] \<and>
      PaginatedQueryWithOptions db builder pagination includes options =
        PaginatedQueryWithOptions db builder (pagination\<lparr>Sort := []\<rparr>) includes options) \<and>
   (\<not> isValidSortField (Sort pagination) \<and>
    ApplyFilters builder (db_Table (GetTableName builder)) = Inr q \<and>
    db_Count db (buildCountQuery options q) = Inr n \<and>
    db_Find db (buildDataQuery builder pagination includes options q) = Inr rows \<longrightarrow>
      PaginatedQueryWithOptions db builder pagination includes options =
        Inr ((rows, n, None),
             [CountIssued (buildCountQuery options q),
              FindIssued (buildDataQuery builder pagination includes options q)]) \<and>
      filter is_QOrder (buildDataQuery builder pagination includes options q) =
        filter is_QOrder q @ [QOrder (GetDefaultSort builder)])"
proof (intro conjI impI)
  show "isValidSortField field \<longleftrightarrow> field \<noteq> [] \<and> (\<forall>c\<in>set field. c \<in> set ident_alphabet)"
    by (rule isValidSortField_iff)
next
  assume "\<not> isValidSortField (Sort pagination)"
  then show "filter is_QOrder (buildDataQuery builder pagination includes options q) =
      filter is_QOrder q @ [QOrder (GetDefaultSort builder)]"
    by (rule buildDataQuery_default_order)
next
  assume "\<not> isValidSortField (Sort pagination)"
  then show "PaginatedQueryWithOptions db builder pagination includes options =
      PaginatedQueryWithOptions db builder (pagination\<lparr>Sort := []\<rparr>) includes options"
    by (rule PaginatedQuery_rejected_sort)
next
  assume h: "\<not> isValidSortField (Sort pagination) \<and>
    ApplyFilters builder (db_Table (GetTableName builder)) = Inr q \<and>
    db_Count db (buildCountQuery options q) = Inr n \<and>
    db_Find db (buildDataQuery builder pagination includes options q) = Inr rows"
  show "PaginatedQueryWithOptions db builder pagination includes options =
      Inr ((rows, n, None),
           [CountIssued (buildCountQuery options q),
            FindIssued (buildDataQuery builder pagination includes options q)])"
    using h by (intro PaginatedQuery_success) simp_all
next
  assume h: "\<not> isValidSortField (Sort pagination) \<and>
    ApplyFilters builder (db_Table (GetTableName builder)) = Inr q \<and>
    db_Count db (buildCountQuery options q) = Inr n \<and>
    db_Find db (buildDataQuery builder pagination includes options q) = Inr rows"
  then have "\<not> isValidSortField (Sort pagination)" by simp
  then show "filter is_QOrder (buildDataQuery builder pagination includes options q) =
      filter is_QOrder q @ [QOrder (GetDefaultSort builder)]"
    by (rule buildDataQuery_default_order)
qed

lemma example_sort_rejected: "\<not> isValidSortField (Sort example_request)"
  by (simp add: example_request_def isValidSortField_def validIdentChar_def isLower_def
      isUpper_def isDigit_def)

lemma example_dataQuery:
  "buildDataQuery example_builder example_request [] example_options [QTable ''posts''] =
     [QTable ''posts'', QOrder ''id asc'', QOffset 10, QLimit 10]"
  by (simp add: buildDataQuery_def example_builder_def example_request_def example_options_def
      Let_def GetOffset_def GetLimit_def wrap_int64_def validateIncludes_def isValidSortField_def
      validIdentChar_def isLower_def isUpper_def isDigit_def)

theorem isValidSortField_fallback_witness:
  "isValidSortField ''created_at'' \<and> isValidSortField ''user.name'' \<and>
   \<not> isValidSortField ''created_at;DROP TABLE x'' \<and> \<not> isValidSortField [] \<and>
   filter is_QOrder
     (buildDataQuery example_builder example_request [] example_options [QTable ''posts'']) =
     [QOrder ''id asc''] \<and>
   PaginatedQueryWithOptions working_db example_builder example_request [] example_options =
     Inr (([11, 12], 25, None),
          [CountIssued [QTable ''posts''],
           FindIssued [QTable ''posts'', QOrder ''id asc'', QOffset 10, QLimit 10]])"
proof -
  note inst = isValidSortField_fallback [where pagination = example_request
      and builder = example_builder and options = example_options
      and q = "[QTable ''posts'']" and db = working_db and n = 25 and rows = "[11, 12]",
      of _ "[]"]
  have applied: "ApplyFilters example_builder (db_Table (GetTableName example_builder)) =
      Inr [QTable ''posts'']"
    by (simp add: example_builder_def db_Table_def)
  have counted: "db_Count working_db (buildCountQuery example_options [QTable ''posts'']) = Inr 25"
    by (simp add: working_db_def)
  have found: "db_Find working_db
      (buildDataQuery example_builder example_request [] example_options [QTable ''posts'']) =
      Inr [11, 12]"
    by (simp add: working_db_def)
  have hyp: "\<not> isValidSortField (Sort example_request) \<and>
      ApplyFilters example_builder (db_Table (GetTableName example_builder)) =
        Inr [QTable ''posts''] \<and>
      db_Count working_db (buildCountQuery example_options [QTable ''posts'']) = Inr 25 \<and>
      db_Find working_db
        (buildDataQuery example_builder example_request [] example_options [QTable ''posts'']) =
        Inr [11, 12]"
    by (intro conjI example_sort_rejected applied counted found)
  note success = inst [of "''created_at''", THEN conjunct2, THEN conjunct2, THEN mp, OF hyp]
  have run: "PaginatedQueryWithOptions working_db example_builder example_request []
        example_options =
      Inr (([11, 12], 25, None),
           [CountIssued (buildCountQuery example_options [QTable ''posts'']),
            FindIssued (buildDataQuery example_builder example_request [] example_options
              [QTable ''posts''])])"
    using success by (rule conjunct1)
  have order: "filter is_QOrder
      (buildDataQuery example_builder example_request [] example_options [QTable ''posts'']) =
      [QOrder ''id asc'']"
    using success [THEN conjunct2] by (simp add: is_QOrder_def example_builder_def)
  have valid: "isValidSortField ''created_at''" "isValidSortField ''user.name''"
    "\<not> isValidSortField ''created_at;DROP TABLE x''" "\<not> isValidSortField []"
    using inst [of "''created_at''", THEN conjunct1] inst [of "''user.name''", THEN conjunct1]
      inst [of "''created_at;DROP TABLE x''", THEN conjunct1] inst [of "[]", THEN conjunct1]
    by (simp_all add: ident_alphabet_def)
  have count_stmt: "buildCountQuery example_options [QTable ''posts''] = [QTable ''posts'']"
    by (simp add: buildCountQuery_def example_options_def)
  show ?thesis
    using valid order run by (simp add: count_stmt example_dataQuery)
qed

section \<open>Failures of the database\<close>

text \<open>
  C6: when the count fails, the executor returns no rows, a count of 0 and the error
  wrapped with the count phase, and the count is the only statement it has executed; when
  the fetch fails, it returns no rows, a count of 0 and the error wrapped with the fetch
  phase.
\<close>

theorem PaginatedQuery_failures:
  "(ApplyFilters builder (db_Table (GetTableName builder)) = Inr q \<and>
    db_Count db (buildCountQuery options q) = Inl err \<longrightarrow>
      PaginatedQueryWithOptions db builder pagination includes options =
        Inr (([], 0, Some (Errorf ''failed to count records: '' err)),
             [CountIssued (buildCountQuery options q)])) \<and>
   (ApplyFilters builder (db_Table (GetTableName builder)) = Inr q \<and>
    db_Count db (buildCountQuery options q) = Inr n \<and>
    db_Find db (buildDataQuery builder pagination includes options q) = Inl err \<longrightarrow>
      PaginatedQueryWithOptions db builder pagination includes options =
        Inr (([], 0, Some (Errorf ''failed to fetch records: '' err)),
             [CountIssued (buildCountQuery options q),
              FindIssued (buildDataQuery builder pagination includes options q)]))"
  by (simp add: PaginatedQueryWithOptions_def Let_def)

theorem PaginatedQuery_failures_witness:
  "PaginatedQueryWithOptions failing_count_db example_builder example_request [] example_options =
     Inr (([], 0, Some (Errorf ''failed to count records: '' (BackendError ''connection refused''))),
          [CountIssued [QTable ''posts'']]) \<and>
   PaginatedQueryWithOptions failing_find_db example_builder example_request [] example_options =
     Inr (([], 0, Some (Errorf ''failed to fetch records: '' (BackendError ''timeout''))),
          [CountIssued [QTable ''posts''],
           FindIssued [QTable ''posts'', QOrder ''id asc'', QOffset 10, QLimit 10]])"
  using PaginatedQuery_failures [of example_builder "[QTable ''posts'']" failing_count_db
      example_options "BackendError ''connection refused''" example_request "[]" 0]
    PaginatedQuery_failures [of example_builder "[QTable ''posts'']" failing_find_db
      example_options "BackendError ''timeout''" example_request "[]" 25]
  by (simp add: example_dataQuery)
     (simp add: example_builder_def example_options_def failing_count_db_def failing_find_db_def
        db_Table_def buildCountQuery_def)

end
